theory Spec2Isabelle
  imports Main "HOL-Library.Sublist"
begin

section \<open>Strings\<close>

text \<open>
  A Python \<open>str\<close> is modelled as a \<open>string\<close>, a list of \<open>char\<close>: the strings of code
  points 0 to 255. On these code points \<open>str.lower\<close> works character by character: it
  maps \<open>A\<close>..\<open>Z\<close> to \<open>a\<close>..\<open>z\<close> and the capital letters 0xC0..0xDE, except the
  multiplication sign 0xD7, to 0xE0..0xFE, and leaves every other code point as it is. The
  whitespace that \<open>str.strip\<close> removes is 0x09..0x0D, 0x1C..0x1F, 0x20, 0x85 and 0xA0.
\<close>

definition upper_letters :: string where
  "upper_letters =
     ''ABCDEFGHIJKLMNOPQRSTUVWXYZ''
     @ [CHR 0xC0, CHR 0xC1, CHR 0xC2, CHR 0xC3, CHR 0xC4, CHR 0xC5, CHR 0xC6, CHR 0xC7,
        CHR 0xC8, CHR 0xC9, CHR 0xCA, CHR 0xCB, CHR 0xCC, CHR 0xCD, CHR 0xCE, CHR 0xCF,
        CHR 0xD0, CHR 0xD1, CHR 0xD2, CHR 0xD3, CHR 0xD4, CHR 0xD5, CHR 0xD6,
        CHR 0xD8, CHR 0xD9, CHR 0xDA, CHR 0xDB, CHR 0xDC, CHR 0xDD, CHR 0xDE]"

definition lower_letters :: string where
  "lower_letters =
     ''abcdefghijklmnopqrstuvwxyz''
     @ [CHR 0xE0, CHR 0xE1, CHR 0xE2, CHR 0xE3, CHR 0xE4, CHR 0xE5, CHR 0xE6, CHR 0xE7,
        CHR 0xE8, CHR 0xE9, CHR 0xEA, CHR 0xEB, CHR 0xEC, CHR 0xED, CHR 0xEE, CHR 0xEF,
        CHR 0xF0, CHR 0xF1, CHR 0xF2, CHR 0xF3, CHR 0xF4, CHR 0xF5, CHR 0xF6,
        CHR 0xF8, CHR 0xF9, CHR 0xFA, CHR 0xFB, CHR 0xFC, CHR 0xFD, CHR 0xFE]"

definition lower_char :: "char \<Rightarrow> char" where
  "lower_char c = (case map_of (zip upper_letters lower_letters) c of
                     Some d \<Rightarrow> d | None \<Rightarrow> c)"

definition isspace :: "char \<Rightarrow> bool" where
  "isspace c = (c \<in> set [CHR 0x09, CHR 0x0A, CHR 0x0B, CHR 0x0C, CHR 0x0D,
                             CHR 0x1C, CHR 0x1D, CHR 0x1E, CHR 0x1F, CHR 0x20,
                             CHR 0x85, CHR 0xA0])"

text \<open>\<open>s.lower()\<close>\<close>

definition lower :: "string \<Rightarrow> string" where
  "lower s = map lower_char s"

text \<open>\<open>s.strip()\<close>: leading and trailing whitespace removed.\<close>

definition strip :: "string \<Rightarrow> string" where
  "strip s = rev (dropWhile isspace (rev (dropWhile isspace s)))"

text \<open>\<open>q in s\<close> on strings: \<open>q\<close> occurs in \<open>s\<close> as a contiguous block.\<close>

fun py_in :: "string \<Rightarrow> string \<Rightarrow> bool" where
  "py_in q [] = (q = [])"
| "py_in q (c # cs) = (prefix q (c # cs) \<or> py_in q cs)"

text \<open>\<open>s.split(sep)[0]\<close> for a non-empty separator: the part of \<open>s\<close> before the first
  occurrence of \<open>sep\<close>, and all of \<open>s\<close> when there is none.\<close>

fun split_first :: "string \<Rightarrow> string \<Rightarrow> string" where
  "split_first sep [] = []"
| "split_first sep (c # cs) =
     (if prefix sep (c # cs) then [] else c # split_first sep cs)"

text \<open>\<open>s.endswith(e)\<close>\<close>

definition endswith :: "string \<Rightarrow> string \<Rightarrow> bool" where
  "endswith s e = prefix (rev e) (rev s)"

section \<open>Data model\<close>

text \<open>
  The values that \<open>json.load\<close> returns. An object is the list of its entries in the
  document's order, since \<open>search_pack\<close> and \<open>preview\<close> iterate over it in order. The
  keys of a Python dictionary are unique; where a statement depends on that, it says so.
  A floating-point number is a value of a type about which nothing is assumed: the
  service never computes with one.
\<close>

typedecl pyfloat

datatype json =
    JNull
  | JBool bool
  | JInt int
  | JFloat pyfloat
  | JStr string
  | JArr "json list"
  | JObj "(string \<times> json) list"

text \<open>
  A pack as the specification describes it: section keys to section texts. Its image among
  the JSON values is the object whose values are these strings.
\<close>

type_synonym pack = "(string \<times> string) list"

definition text_pack :: "pack \<Rightarrow> json" where
  "text_pack sections = JObj (map (\<lambda>(k, t). (k, JStr t)) sections)"

text \<open>The sections of an object whose value is a string, in order.\<close>

definition section_texts :: "(string \<times> json) list \<Rightarrow> pack" where
  "section_texts kvs = [(k, t). (k, JStr t) \<leftarrow> kvs]"

text \<open>
  The exceptions that are not raised by the handlers themselves: the one \<open>load_pack\<close>
  raises, those of \<open>open\<close>, \<open>json.load\<close> and \<open>os.listdir\<close>, and the
  \<open>AttributeError\<close> of a method call on a value that has no such method. Any other
  exception class is \<open>OtherError\<close> with its name.
\<close>

datatype py_error =
    FileNotFoundError string
  | JSONDecodeError
  | UnicodeDecodeError
  | IsADirectoryError
  | NotADirectoryError
  | PermissionError
  | AttributeError
  | OtherError string

text \<open>
  What is at a path that exists: a document that \<open>open\<close> and \<open>json.load\<close> turn into a
  value, or something on which one of them raises (a directory, an unreadable file, bytes
  that are not UTF-8, text that is not JSON).
\<close>

datatype stored = Content json | Unloadable py_error

text \<open>
  The files the service reads. \<open>listdir\<close> is the outcome of \<open>os.listdir(DATA_DIR)\<close>, an
  exception when the directory cannot be listed; \<open>file_at n\<close> is what is at
  \<open>os.path.join(DATA_DIR, n)\<close>, \<open>None\<close> when \<open>os.path.exists\<close> is false there;
  \<open>config_file\<close> is what is at \<open>app_schema/config.json\<close> under the root.
\<close>

record filesystem =
  listdir :: "py_error + string list"
  file_at :: "string \<Rightarrow> stored option"
  config_file :: "stored option"

text \<open>What leaves a handler instead of a response: an \<open>HTTPException\<close> it raises, or
  any other exception, which it does not catch.\<close>

datatype exn =
    Raised py_error
  | HTTPException nat string

text \<open>
  The status of the HTTP response for what a handler does: 200 when it returns a body, the
  status code of an \<open>HTTPException\<close>, and 500 for any other exception that leaves it.
\<close>

fun status_code :: "exn + 'a \<Rightarrow> nat" where
  "status_code (Inr body) = 200"
| "status_code (Inl (HTTPException code detail)) = code"
| "status_code (Inl (Raised e)) = 500"

text \<open>\<open>PackRequest\<close> and \<open>SearchRequest\<close>. The field names carry a prefix, since the
  responses use the same keys.\<close>

record PackRequest =
  req_pack :: string
  req_sections :: "string list option"
  req_format :: "string option"
  req_options :: "(string \<times> json) list option"

record SearchRequest =
  req_q :: string

section \<open>Helpers\<close>

definition load_pack :: "filesystem \<Rightarrow> string \<Rightarrow> py_error + json" where
  "load_pack fs pack_name =
     (let fname = lower pack_name @ ''.json'' in
      case file_at fs fname of
        None \<Rightarrow> Inl (FileNotFoundError (''Pack not found: '' @ pack_name))
      | Some (Unloadable e) \<Rightarrow> Inl e
      | Some (Content d) \<Rightarrow> Inr d)"

text \<open>\<open>full_pack.items()\<close> exists on a dictionary only.\<close>

definition filter_sections :: "json \<Rightarrow> string list option \<Rightarrow> py_error + json" where
  "filter_sections full_pack keys =
     (case keys of
        None \<Rightarrow> Inr full_pack
      | Some ks \<Rightarrow>
          if ks = [] then Inr full_pack
          else (case full_pack of
                  JObj kvs \<Rightarrow> Inr (JObj [(k, v). (k, v) \<leftarrow> kvs, k \<in> set ks])
                | _ \<Rightarrow> Inl AttributeError))"

text \<open>\<open>x or {}\<close> on an optional dictionary.\<close>

definition or_empty :: "('k \<times> 'v) list option \<Rightarrow> ('k \<times> 'v) list" where
  "or_empty d = (case d of None \<Rightarrow> [] | Some kvs \<Rightarrow> if kvs = [] then [] else kvs)"

section \<open>Endpoints\<close>

text \<open>The names of the JSON documents in the data directory, as \<open>list_packs\<close> and
  \<open>search_pack\<close> compute them.\<close>

definition json_stems :: "filesystem \<Rightarrow> py_error + string list" where
  "json_stems fs =
     (case listdir fs of
        Inl e \<Rightarrow> Inl e
      | Inr files \<Rightarrow> Inr [split_first ''.json'' f. f \<leftarrow> files, endswith f ''.json''])"

definition list_packs :: "filesystem \<Rightarrow> exn + string list" where
  "list_packs fs = (case json_stems fs of Inl e \<Rightarrow> Inl (Raised e) | Inr files \<Rightarrow> Inr files)"

subsection \<open>\<open>/get_pack\<close>\<close>

record meta =
  meta_format :: "string option"
  meta_options :: "(string \<times> json) list"

record get_pack_response =
  gp_pack :: string
  gp_content :: json
  gp_meta :: meta

definition get_pack :: "filesystem \<Rightarrow> PackRequest \<Rightarrow> exn + get_pack_response" where
  "get_pack fs req =
     (let pack_name = lower (req_pack req) in
      case load_pack fs pack_name of
        Inl e \<Rightarrow>
          (case e of
             FileNotFoundError m \<Rightarrow>
               Inl (HTTPException 404
                      (''Pack '' @ [CHR 0x27] @ pack_name @ [CHR 0x27] @ '' not found.''))
           | _ \<Rightarrow> Inl (Raised e))
      | Inr content \<Rightarrow>
          (case filter_sections content (req_sections req) of
             Inl e \<Rightarrow> Inl (Raised e)
           | Inr filtered \<Rightarrow>
               Inr \<lparr>gp_pack = pack_name,
                    gp_content = filtered,
                    gp_meta = \<lparr>meta_format = req_format req,
                               meta_options = or_empty (req_options req)\<rparr>\<rparr>))"

subsection \<open>\<open>/search\<close>\<close>

record search_result =
  res_pack :: string
  res_section :: string
  res_excerpt :: string

record search_response =
  resp_query :: string
  resp_results :: "search_result list"

text \<open>The packs that are searched: the one named by the query parameter when it is given
  and not empty, every JSON document of the data directory otherwise.\<close>

definition search_scope :: "filesystem \<Rightarrow> string option \<Rightarrow> py_error + string list" where
  "search_scope fs pack_param =
     (case pack_param of
        None \<Rightarrow> json_stems fs
      | Some p \<Rightarrow> if p = [] then json_stems fs else Inr [p])"

text \<open>The inner loop, over the entries of one pack; \<open>results\<close> is the list built so far.
  \<open>text.lower()\<close> exists on a string only.\<close>

fun scan_sections ::
  "string \<Rightarrow> string \<Rightarrow> (string \<times> json) list \<Rightarrow> search_result list
     \<Rightarrow> py_error + search_result list" where
  "scan_sections q p [] results = Inr results"
| "scan_sections q p ((sec, v) # rest) results =
     (case v of
        JStr text \<Rightarrow>
          scan_sections q p rest
            (if py_in q (lower sec @ '' '' @ lower text)
             then results @ [\<lparr>res_pack = p, res_section = sec, res_excerpt = take 300 text\<rparr>]
             else results)
      | _ \<Rightarrow> Inl AttributeError)"

text \<open>The outer loop, over the packs: a pack whose load raises \<open>FileNotFoundError\<close> is
  skipped, any other exception leaves the loop. \<open>data.items()\<close> exists on a dictionary
  only.\<close>

fun scan_packs ::
  "filesystem \<Rightarrow> string \<Rightarrow> string list \<Rightarrow> search_result list
     \<Rightarrow> py_error + search_result list" where
  "scan_packs fs q [] results = Inr results"
| "scan_packs fs q (p # ps) results =
     (case load_pack fs p of
        Inl e \<Rightarrow>
          (case e of
             FileNotFoundError m \<Rightarrow> scan_packs fs q ps results
           | _ \<Rightarrow> Inl e)
      | Inr data \<Rightarrow>
          (case data of
             JObj kvs \<Rightarrow>
               (case scan_sections q p kvs results of
                  Inl e \<Rightarrow> Inl e
                | Inr results' \<Rightarrow> scan_packs fs q ps results')
           | _ \<Rightarrow> Inl AttributeError))"

definition search_pack :: "filesystem \<Rightarrow> SearchRequest \<Rightarrow> string option \<Rightarrow> exn + search_response" where
  "search_pack fs req pack_param =
     (let q = lower (strip (req_q req)) in
      case search_scope fs pack_param of
        Inl e \<Rightarrow> Inl (Raised e)
      | Inr packs \<Rightarrow>
          (case scan_packs fs q packs [] of
             Inl e \<Rightarrow> Inl (Raised e)
           | Inr results \<Rightarrow> Inr \<lparr>resp_query = q, resp_results = results\<rparr>))"

subsection \<open>\<open>/render_payload\<close>\<close>

record style =
  theme :: string
  palette :: "(string \<times> string) list"
  fonts :: "string list"

record payload =
  pl_pack :: string
  pl_style :: style
  pl_sections :: json
  pl_options :: "(string \<times> json) list"

definition palettes :: "(string \<times> (string \<times> string) list) list" where
  "palettes =
     [(''nlp'', [(''bg'', ''#ffffff''), (''primary'', ''#0B5F9A''), (''accent'', ''#2A9D7D'')]),
      (''hypnosis'', [(''bg'', ''#e8f2ff''), (''primary'', ''#4750B8''), (''accent'', ''#2AA199'')]),
      (''sales'', [(''bg'', ''#fff9e6''), (''primary'', ''#D9534F''), (''accent'', ''#E89E2D'')])]"

definition render_payload :: "filesystem \<Rightarrow> PackRequest \<Rightarrow> exn + payload" where
  "render_payload fs req =
     (case load_pack fs (lower (req_pack req)) of
        Inl e \<Rightarrow>
          (case e of
             FileNotFoundError m \<Rightarrow>
               Inl (HTTPException 404
                      (''Pack '' @ [CHR 0x27] @ req_pack req @ [CHR 0x27] @ '' not found.''))
           | _ \<Rightarrow> Inl (Raised e))
      | Inr content \<Rightarrow>
          (case filter_sections content (req_sections req) of
             Inl e \<Rightarrow> Inl (Raised e)
           | Inr sections \<Rightarrow>
               Inr \<lparr>pl_pack = req_pack req,
                    pl_style = \<lparr>theme = lower (req_pack req),
                                palette = (case map_of palettes (lower (req_pack req)) of
                                             None \<Rightarrow> [] | Some pal \<Rightarrow> pal),
                                fonts = [''Inter'', ''Nunito'']\<rparr>,
                    pl_sections = sections,
                    pl_options = or_empty (req_options req)\<rparr>))"

subsection \<open>\<open>/schema\<close>\<close>

definition schema :: "filesystem \<Rightarrow> exn + json" where
  "schema fs =
     (case config_file fs of
        Some (Content cfg) \<Rightarrow> Inr cfg
      | Some (Unloadable e) \<Rightarrow> Inl (Raised e)
      | None \<Rightarrow> Inr (JObj [(''error'', JStr ''config.json missing'')]))"

subsection \<open>\<open>/preview/{pack_name}\<close>\<close>

text \<open>
  Two functions of the Python library are parameters of the preview: \<open>title\<close> is
  \<open>str.title\<close>, and \<open>py_str\<close> is the text that an f-string puts for a value that is not
  a string. A string is put as it is.
\<close>

definition fmt :: "(json \<Rightarrow> string) \<Rightarrow> json \<Rightarrow> string" where
  "fmt py_str v = (case v of JStr t \<Rightarrow> t | _ \<Rightarrow> py_str v)"

fun preview_sections :: "(json \<Rightarrow> string) \<Rightarrow> (string \<times> json) list \<Rightarrow> string \<Rightarrow> string" where
  "preview_sections py_str [] html = html"
| "preview_sections py_str ((k, v) # rest) html =
     preview_sections py_str rest
       (html @ ''<section><h2>'' @ k @ ''</h2><p>'' @ fmt py_str v @ ''</p></section>'')"

definition preview ::
  "(string \<Rightarrow> string) \<Rightarrow> (json \<Rightarrow> string) \<Rightarrow> filesystem \<Rightarrow> string \<Rightarrow> exn + string" where
  "preview title py_str fs pack_name =
     (case load_pack fs pack_name of
        Inl e \<Rightarrow>
          (case e of
             FileNotFoundError m \<Rightarrow> Inl (HTTPException 404 ''Pack not found'')
           | _ \<Rightarrow> Inl (Raised e))
      | Inr content \<Rightarrow>
          (case content of
             JObj kvs \<Rightarrow>
               Inr (preview_sections py_str kvs
                      (''<html><head><meta charset='' @ [CHR 0x27] @ ''utf-8'' @ [CHR 0x27]
                         @ ''><title>Preview</title></head><body>''
                         @ ''<h1>'' @ title pack_name @ '' Preview</h1>'')
                    @ ''</body></html>'')
           | _ \<Rightarrow> Inl (Raised AttributeError)))"

section \<open>Example file systems\<close>

text \<open>The catalog of the specification's examples, with a second pack and a file that is
  not a JSON document.\<close>

definition sales_pack :: pack where
  "sales_pack = [(''opening'', ''Build rapport fast.''), (''Closing'', ''Ask for the order.'')]"

definition nlp_pack :: pack where
  "nlp_pack = [(''anchoring'', ''Link a state to a cue.'')]"

definition demo_fs :: filesystem where
  "demo_fs =
     \<lparr>listdir = Inr [''sales.json'', ''notes.txt'', ''nlp.json''],
      file_at = map_of [(''sales.json'', Content (text_pack sales_pack)),
                        (''nlp.json'', Content (text_pack nlp_pack))],
      config_file = None\<rparr>"

text \<open>A request that names the sales pack with a capital letter.\<close>

definition sales_request :: PackRequest where
  "sales_request =
     \<lparr>req_pack = ''Sales'', req_sections = None, req_format = Some ''json'', req_options = None\<rparr>"

text \<open>A query in upper case with blanks around it, and a query of a blank, a no-break
  space and a tab.\<close>

definition rapport_query :: SearchRequest where
  "rapport_query = \<lparr>req_q = ''  RAPPORT ''\<rparr>"

definition blank_query :: SearchRequest where
  "blank_query = \<lparr>req_q = [CHR 0x20, CHR 0xA0, CHR 0x09]\<rparr>"

text \<open>A data directory with a pack document that is not valid JSON, and a schema document
  that is not valid JSON either.\<close>

definition broken_fs :: filesystem where
  "broken_fs =
     \<lparr>listdir = Inr [''sales.json'', ''broken.json''],
      file_at = map_of [(''sales.json'', Content (text_pack sales_pack)),
                        (''broken.json'', Unloadable JSONDecodeError)],
      config_file = Some (Unloadable JSONDecodeError)\<rparr>"

text \<open>A data directory that lists \<open>Drafts.json\<close>: the catalog name \<open>Drafts\<close> is looked
  up as \<open>drafts.json\<close>, which does not exist.\<close>

definition mixed_fs :: filesystem where
  "mixed_fs =
     \<lparr>listdir = Inr [''Drafts.json'', ''sales.json''],
      file_at = map_of [(''Drafts.json'', Content (text_pack [(''idea'', ''Rapport first.'')])),
                        (''sales.json'', Content (text_pack sales_pack))],
      config_file = None\<rparr>"

text \<open>A request that names the pack \<open>Drafts\<close> as the catalog of that directory spells
  it.\<close>

definition drafts_request :: PackRequest where
  "drafts_request =
     \<lparr>req_pack = ''Drafts'', req_sections = None, req_format = Some ''json'', req_options = None\<rparr>"

text \<open>Two functions that stand for \<open>str.title\<close> and for the text of a value in the
  examples of the preview; the examples are cases where neither is reached.\<close>

definition example_title :: "string \<Rightarrow> string" where
  "example_title s = s"

definition example_str :: "json \<Rightarrow> string" where
  "example_str v = []"

section \<open>Properties of the string operations\<close>

lemma isspace_lower_char: "isspace (lower_char c) = isspace c"
  unfolding lower_char_def upper_letters_def lower_letters_def isspace_def
  by simp

lemma lower_char_idem: "lower_char (lower_char c) = lower_char c"
  unfolding lower_char_def upper_letters_def lower_letters_def
  by simp

lemma lower_idem: "lower (lower s) = lower s"
  by (simp add: lower_def lower_char_idem)

lemma lower_Nil: "lower [] = []"
  by (simp add: lower_def)

lemma dropWhile_isspace_lower:
  "dropWhile isspace (map lower_char xs) = map lower_char (dropWhile isspace xs)"
  by (simp add: dropWhile_map comp_def isspace_lower_char)

lemma strip_lower: "strip (lower s) = lower (strip s)"
proof -
  have "strip (lower s) = rev (dropWhile isspace (map lower_char (rev (dropWhile isspace s))))"
    by (simp add: strip_def lower_def dropWhile_isspace_lower rev_map)
  also have "\<dots> = lower (strip s)"
    by (simp add: strip_def lower_def dropWhile_isspace_lower rev_map)
  finally show ?thesis .
qed

lemma strip_all_space:
  assumes "\<forall>c \<in> set s. isspace c"
  shows "strip s = []"
proof -
  from assms have d: "dropWhile isspace s = []"
    by (simp only: dropWhile_eq_Nil_conv)
  show ?thesis unfolding strip_def d by simp
qed

lemma py_in_iff: "py_in q s \<longleftrightarrow> (\<exists>pre post. s = pre @ q @ post)"
proof (induction s)
  case Nil
  then show ?case by auto
next
  case (Cons c cs)
  show ?case
  proof
    assume "py_in q (c # cs)"
    then consider "prefix q (c # cs)" | "py_in q cs" by auto
    then show "\<exists>pre post. c # cs = pre @ q @ post"
    proof cases
      case 1
      then obtain post where "c # cs = q @ post" by (auto simp: prefix_def)
      then have "c # cs = [] @ q @ post" by simp
      then show ?thesis by blast
    next
      case 2
      with Cons.IH obtain pre post where "cs = pre @ q @ post" by blast
      then have "c # cs = (c # pre) @ q @ post" by simp
      then show ?thesis by blast
    qed
  next
    assume "\<exists>pre post. c # cs = pre @ q @ post"
    then obtain pre post where e: "c # cs = pre @ q @ post" by blast
    show "py_in q (c # cs)"
    proof (cases pre)
      case Nil
      with e have "prefix q (c # cs)" by (simp add: prefix_def)
      then show ?thesis by simp
    next
      case (Cons a pre')
      with e have "cs = pre' @ q @ post" by simp
      with Cons.IH have "py_in q cs" by blast
      then show ?thesis by simp
    qed
  qed
qed

lemma py_in_Nil: "py_in [] s"
  by (induction s) simp_all

lemma py_in_middle: "py_in q (pre @ q @ post)"
  by (auto simp: py_in_iff)

section \<open>Properties of the pack loader\<close>

lemma load_pack_absent:
  "file_at fs (lower p @ ''.json'') = None \<Longrightarrow>
     load_pack fs p = Inl (FileNotFoundError (''Pack not found: '' @ p))"
  by (simp add: load_pack_def)

lemma load_pack_unloadable:
  "file_at fs (lower p @ ''.json'') = Some (Unloadable e) \<Longrightarrow> load_pack fs p = Inl e"
  by (simp add: load_pack_def)

lemma load_pack_content:
  "file_at fs (lower p @ ''.json'') = Some (Content d) \<Longrightarrow> load_pack fs p = Inr d"
  by (simp add: load_pack_def)

lemma load_pack_lower_content:
  "file_at fs (lower name @ ''.json'') = Some (Content d) \<Longrightarrow>
     load_pack fs (lower name) = Inr d"
  by (simp add: load_pack_def lower_idem)

lemma load_pack_lower_absent:
  "file_at fs (lower name @ ''.json'') = None \<Longrightarrow>
     load_pack fs (lower name) = Inl (FileNotFoundError (''Pack not found: '' @ lower name))"
  by (simp add: load_pack_def lower_idem)

section \<open>Properties of the search loops\<close>

lemma section_texts_Nil: "section_texts [] = []"
  by (simp add: section_texts_def)

lemma section_texts_Cons:
  "section_texts ((k, v) # kvs) =
     (case v of JStr t \<Rightarrow> (k, t) # section_texts kvs | _ \<Rightarrow> section_texts kvs)"
  by (cases v) (simp_all add: section_texts_def)

lemma section_texts_mem: "(k, t) \<in> set (section_texts kvs) \<longleftrightarrow> (k, JStr t) \<in> set kvs"
proof (induction kvs)
  case Nil
  then show ?case by (simp add: section_texts_Nil)
next
  case (Cons kv kvs)
  obtain k' v where kv: "kv = (k', v)" by (cases kv)
  show ?case using Cons.IH unfolding kv by (cases v) (auto simp: section_texts_Cons)
qed

lemma section_texts_text: "section_texts (map (\<lambda>(k, t). (k, JStr t)) sections) = sections"
  by (induction sections) (auto simp: section_texts_Nil section_texts_Cons)

lemma scan_sections_Inr:
  "scan_sections q p kvs acc = Inr res \<Longrightarrow>
     kvs = map (\<lambda>(k, t). (k, JStr t)) (section_texts kvs)
     \<and> res = acc @ map (\<lambda>(sec, text). \<lparr>res_pack = p, res_section = sec, res_excerpt = take 300 text\<rparr>)
                    (filter (\<lambda>(sec, text). py_in q (lower sec @ '' '' @ lower text))
                       (section_texts kvs))"
proof (induction kvs arbitrary: acc)
  case Nil
  then show ?case by (simp add: section_texts_Nil)
next
  case (Cons kv kvs)
  obtain k v where kv: "kv = (k, v)" by (cases kv)
  from Cons.prems kv obtain t where v: "v = JStr t"
    by (cases v) simp_all
  let ?acc = "if py_in q (lower k @ '' '' @ lower t)
              then acc @ [\<lparr>res_pack = p, res_section = k, res_excerpt = take 300 t\<rparr>]
              else acc"
  from Cons.prems kv v have "scan_sections q p kvs ?acc = Inr res" by simp
  from Cons.IH [OF this] show ?case
    by (simp add: kv v section_texts_Cons)
qed

lemma scan_sections_Inl: "scan_sections q p kvs acc = Inl e \<Longrightarrow> e = AttributeError"
proof (induction kvs arbitrary: acc)
  case Nil
  then show ?case by simp
next
  case (Cons kv kvs)
  obtain k v where kv: "kv = (k, v)" by (cases kv)
  show ?case
  proof (cases v)
    case (JStr t)
    with Cons.prems kv have "\<exists>acc'. scan_sections q p kvs acc' = Inl e" by auto
    with Cons.IH show ?thesis by blast
  qed (use Cons.prems kv in simp_all)
qed

lemma scan_sections_text:
  "scan_sections q p (map (\<lambda>(k, t). (k, JStr t)) sections) acc =
     Inr (acc @ map (\<lambda>(sec, text). \<lparr>res_pack = p, res_section = sec, res_excerpt = take 300 text\<rparr>)
                  (filter (\<lambda>(sec, text). py_in q (lower sec @ '' '' @ lower text)) sections))"
  by (induction sections arbitrary: acc) auto

lemma scan_packs_skip:
  "scan_packs fs q [p \<leftarrow> ps. file_at fs (lower p @ ''.json'') \<noteq> None] acc = scan_packs fs q ps acc"
proof (induction ps arbitrary: acc)
  case Nil
  then show ?case by simp
next
  case (Cons p ps)
  show ?case
  proof (cases "file_at fs (lower p @ ''.json'')")
    case None
    then have "[p \<leftarrow> p # ps. file_at fs (lower p @ ''.json'') \<noteq> None]
                 = [p \<leftarrow> ps. file_at fs (lower p @ ''.json'') \<noteq> None]"
      by simp
    moreover from None have "scan_packs fs q (p # ps) acc = scan_packs fs q ps acc"
      by (simp add: load_pack_absent)
    ultimately show ?thesis by (simp only: Cons.IH)
  next
    case (Some f)
    then have "[p \<leftarrow> p # ps. file_at fs (lower p @ ''.json'') \<noteq> None]
                 = p # [p \<leftarrow> ps. file_at fs (lower p @ ''.json'') \<noteq> None]"
      by simp
    with Some Cons.IH show ?thesis
      by (auto simp: load_pack_def split: stored.splits json.splits sum.splits py_error.splits)
  qed
qed

lemma scan_packs_Inr:
  "scan_packs fs q ps acc = Inr res \<Longrightarrow>
     res = acc @ concat (map (\<lambda>p. case load_pack fs p of
                                       Inl e \<Rightarrow> []
                                     | Inr d \<Rightarrow>
                                         (case d of
                                            JObj kvs \<Rightarrow>
                                              map (\<lambda>(sec, text). \<lparr>res_pack = p, res_section = sec,
                                                                    res_excerpt = take 300 text\<rparr>)
                                                (filter (\<lambda>(sec, text). py_in q (lower sec @ '' '' @ lower text))
                                                   (section_texts kvs))
                                          | _ \<Rightarrow> [])) ps)"
proof (induction ps arbitrary: acc)
  case Nil
  then show ?case by simp
next
  case (Cons p ps)
  show ?case
  proof (cases "load_pack fs p")
    case (Inl e)
    with Cons.prems have "scan_packs fs q ps acc = Inr res"
      by (cases e) simp_all
    from Cons.IH [OF this] Inl show ?thesis by simp
  next
    case (Inr d)
    with Cons.prems obtain kvs where d: "d = JObj kvs"
      by (cases d) simp_all
    with Cons.prems Inr obtain acc' where
      s: "scan_sections q p kvs acc = Inr acc'" and r: "scan_packs fs q ps acc' = Inr res"
      by (cases "scan_sections q p kvs acc") simp_all
    from scan_sections_Inr [OF s] Cons.IH [OF r] Inr d show ?thesis by simp
  qed
qed

lemma scan_packs_texts:
  "scan_packs fs q ps acc = Inr res \<Longrightarrow> p \<in> set ps \<Longrightarrow> load_pack fs p = Inr d \<Longrightarrow>
     \<exists>kvs. d = JObj kvs \<and> kvs = map (\<lambda>(k, t). (k, JStr t)) (section_texts kvs)"
proof (induction ps arbitrary: acc)
  case Nil
  then show ?case by simp
next
  case (Cons p' ps)
  show ?case
  proof (cases "load_pack fs p'")
    case (Inl e)
    with Cons.prems have r: "scan_packs fs q ps acc = Inr res" and "p \<in> set ps"
      by (cases e; auto)+
    with Cons.IH Cons.prems(3) show ?thesis by blast
  next
    case (Inr d')
    with Cons.prems(1) obtain kvs where d: "d' = JObj kvs"
      by (cases d') simp_all
    with Cons.prems(1) Inr obtain acc' where
      s: "scan_sections q p' kvs acc = Inr acc'" and r: "scan_packs fs q ps acc' = Inr res"
      by (cases "scan_sections q p' kvs acc") simp_all
    show ?thesis
    proof (cases "p = p'")
      case True
      with Inr Cons.prems(3) d have "d = JObj kvs" by simp
      with scan_sections_Inr [OF s] show ?thesis by blast
    next
      case False
      with Cons.prems(2) have "p \<in> set ps" by simp
      from Cons.IH [OF r this Cons.prems(3)] show ?thesis .
    qed
  qed
qed

lemma scan_packs_mem:
  assumes "scan_packs fs q ps [] = Inr res"
  shows "r \<in> set res \<longleftrightarrow>
          (\<exists>p kvs sec text. p \<in> set ps \<and> load_pack fs p = Inr (JObj kvs)
             \<and> (sec, JStr text) \<in> set kvs
             \<and> py_in q (lower sec @ '' '' @ lower text)
             \<and> r = \<lparr>res_pack = p, res_section = sec, res_excerpt = take 300 text\<rparr>)"
proof -
  define hits where "hits = (\<lambda>p kvs. map (\<lambda>(sec, text). \<lparr>res_pack = p, res_section = sec,
                                                res_excerpt = take 300 text\<rparr>)
                          (filter (\<lambda>(sec, text). py_in q (lower sec @ '' '' @ lower text))
                             (section_texts kvs)))"
  define per where "per = (\<lambda>p. case load_pack fs p of
                     Inl e \<Rightarrow> []
                   | Inr d \<Rightarrow> (case d of JObj kvs \<Rightarrow> hits p kvs | _ \<Rightarrow> []))"
  have res: "res = concat (map per ps)"
    using scan_packs_Inr [OF assms] unfolding per_def hits_def by simp
  have hits: "r \<in> set (hits p kvs) \<longleftrightarrow>
                (\<exists>sec t. (sec, JStr t) \<in> set kvs \<and> py_in q (lower sec @ '' '' @ lower t)
                   \<and> r = \<lparr>res_pack = p, res_section = sec, res_excerpt = take 300 t\<rparr>)" for p kvs
  proof -
    have "r \<in> set (hits p kvs) \<longleftrightarrow>
            (\<exists>sec t. (sec, t) \<in> set (section_texts kvs) \<and> py_in q (lower sec @ '' '' @ lower t)
                   \<and> r = \<lparr>res_pack = p, res_section = sec, res_excerpt = take 300 t\<rparr>)"
      unfolding hits_def by force
    then show ?thesis by (simp only: section_texts_mem)
  qed
  have per_Inr: "per p = hits p kvs" if "load_pack fs p = Inr (JObj kvs)" for p kvs
    using that by (simp add: per_def)
  have per_elim: "\<exists>kvs. load_pack fs p = Inr (JObj kvs) \<and> r \<in> set (hits p kvs)"
    if "r \<in> set (per p)" for p
  proof (cases "load_pack fs p")
    case (Inl e)
    with that show ?thesis by (simp add: per_def)
  next
    case (Inr d)
    with that show ?thesis by (cases d) (simp_all add: per_def)
  qed
  have mem: "r \<in> set res \<longleftrightarrow> (\<exists>p \<in> set ps. r \<in> set (per p))"
    unfolding res by simp
  show ?thesis
  proof
    assume "r \<in> set res"
    with mem obtain p where p: "p \<in> set ps" and r: "r \<in> set (per p)"
      by blast
    from per_elim [OF r] obtain kvs where d: "load_pack fs p = Inr (JObj kvs)"
      and rk: "r \<in> set (hits p kvs)"
      by blast
    from rk hits [of p kvs] obtain sec t where
      "(sec, JStr t) \<in> set kvs" "py_in q (lower sec @ '' '' @ lower t)"
      "r = \<lparr>res_pack = p, res_section = sec, res_excerpt = take 300 t\<rparr>"
      by blast
    with p d show "\<exists>p kvs sec text. p \<in> set ps \<and> load_pack fs p = Inr (JObj kvs)
             \<and> (sec, JStr text) \<in> set kvs
             \<and> py_in q (lower sec @ '' '' @ lower text)
             \<and> r = \<lparr>res_pack = p, res_section = sec, res_excerpt = take 300 text\<rparr>"
      by blast
  next
    assume "\<exists>p kvs sec text. p \<in> set ps \<and> load_pack fs p = Inr (JObj kvs)
             \<and> (sec, JStr text) \<in> set kvs
             \<and> py_in q (lower sec @ '' '' @ lower text)
             \<and> r = \<lparr>res_pack = p, res_section = sec, res_excerpt = take 300 text\<rparr>"
    then obtain p kvs sec t where p: "p \<in> set ps" and d: "load_pack fs p = Inr (JObj kvs)"
      and m: "(sec, JStr t) \<in> set kvs" "py_in q (lower sec @ '' '' @ lower t)"
             "r = \<lparr>res_pack = p, res_section = sec, res_excerpt = take 300 t\<rparr>"
      by blast
    from m hits [of p kvs] have "r \<in> set (hits p kvs)" by blast
    with per_Inr [OF d] have "r \<in> set (per p)" by simp
    with p mem show "r \<in> set res" by blast
  qed
qed

lemma search_pack_Inr:
  "search_pack fs req pack_param = Inr resp \<Longrightarrow>
     \<exists>ps. search_scope fs pack_param = Inr ps
       \<and> scan_packs fs (lower (strip (req_q req))) ps [] = Inr (resp_results resp)
       \<and> resp_query resp = lower (strip (req_q req))"
  by (auto simp: search_pack_def Let_def split: sum.splits)

lemma search_pack_scan:
  "search_scope fs pack_param = Inr ps \<Longrightarrow>
     search_pack fs req pack_param =
       (case scan_packs fs (lower (strip (req_q req))) ps [] of
          Inl e \<Rightarrow> Inl (Raised e)
        | Inr results \<Rightarrow> Inr \<lparr>resp_query = lower (strip (req_q req)), resp_results = results\<rparr>)"
  by (simp add: search_pack_def Let_def)

lemma distinct_keys_unique:
  "distinct (map fst data) \<Longrightarrow> (k, v) \<in> set data \<Longrightarrow> (k, v') \<in> set data \<Longrightarrow> v = v'"
  by (meson eq_key_imp_eq_value)

section \<open>The example catalogs\<close>

lemma lower_Sales: "lower ''Sales'' = ''sales''"
  by (simp add: lower_def lower_char_def upper_letters_def lower_letters_def)

lemma lower_sales: "lower ''sales'' = ''sales''"
  by (simp add: lower_def lower_char_def upper_letters_def lower_letters_def)

lemma lower_nlp: "lower ''nlp'' = ''nlp''"
  by (simp add: lower_def lower_char_def upper_letters_def lower_letters_def)

lemma lower_Drafts: "lower ''Drafts'' = ''drafts''"
  by (simp add: lower_def lower_char_def upper_letters_def lower_letters_def)

lemma lower_drafts: "lower ''drafts'' = ''drafts''"
  by (simp add: lower_def lower_char_def upper_letters_def lower_letters_def)

lemma lower_broken: "lower ''broken'' = ''broken''"
  by (simp add: lower_def lower_char_def upper_letters_def lower_letters_def)

lemma lower_missing: "lower ''missing'' = ''missing''"
  by (simp add: lower_def lower_char_def upper_letters_def lower_letters_def)

lemma lower_Unknown: "lower ''Unknown'' = ''unknown''"
  by (simp add: lower_def lower_char_def upper_letters_def lower_letters_def)

lemma lower_unknownpack: "lower ''unknownpack'' = ''unknownpack''"
  by (simp add: lower_def lower_char_def upper_letters_def lower_letters_def)

lemma lower_latin1: "lower [CHR 0xC9, CHR ''T'', CHR 0xC9, CHR 0xD7] = [CHR 0xE9, CHR ''t'', CHR 0xE9, CHR 0xD7]"
  by (simp add: lower_def lower_char_def upper_letters_def lower_letters_def)

lemma lower_opening: "lower ''opening'' = ''opening''"
  by (simp add: lower_def lower_char_def upper_letters_def lower_letters_def)

lemma lower_Build: "lower ''Build rapport fast.'' = ''build rapport fast.''"
  by (simp add: lower_def lower_char_def upper_letters_def lower_letters_def)

lemma lower_Closing: "lower ''Closing'' = ''closing''"
  by (simp add: lower_def lower_char_def upper_letters_def lower_letters_def)

lemma lower_Ask: "lower ''Ask for the order.'' = ''ask for the order.''"
  by (simp add: lower_def lower_char_def upper_letters_def lower_letters_def)

lemma lower_anchoring: "lower ''anchoring'' = ''anchoring''"
  by (simp add: lower_def lower_char_def upper_letters_def lower_letters_def)

lemma lower_Link: "lower ''Link a state to a cue.'' = ''link a state to a cue.''"
  by (simp add: lower_def lower_char_def upper_letters_def lower_letters_def)

lemma lower_rapport: "lower (strip (req_q rapport_query)) = ''rapport''"
  by (simp add: rapport_query_def strip_def isspace_def lower_def lower_char_def
        upper_letters_def lower_letters_def)

lemma strip_blank: "lower (strip (req_q blank_query)) = []"
  by (simp add: blank_query_def strip_def isspace_def lower_def)

lemma demo_scope: "search_scope demo_fs None = Inr [''sales'', ''nlp'']"
  by (simp add: search_scope_def json_stems_def demo_fs_def endswith_def)

lemma demo_fs_sales: "file_at demo_fs (lower ''Sales'' @ ''.json'') = Some (Content (text_pack sales_pack))"
  by (simp add: lower_Sales demo_fs_def)

lemma demo_load_sales: "load_pack demo_fs ''sales'' = Inr (text_pack sales_pack)"
  by (simp add: load_pack_def lower_sales demo_fs_def)

lemma demo_load_nlp: "load_pack demo_fs ''nlp'' = Inr (text_pack nlp_pack)"
  by (simp add: load_pack_def lower_nlp demo_fs_def)

lemma demo_missing: "file_at demo_fs (lower ''missing'' @ ''.json'') = None"
  by (simp add: lower_missing demo_fs_def)

lemma scan_sales_rapport:
  "scan_sections ''rapport'' p (map (\<lambda>(k, t). (k, JStr t)) sales_pack) acc =
     Inr (acc @ [\<lparr>res_pack = p, res_section = ''opening'', res_excerpt = ''Build rapport fast.''\<rparr>])"
  by (simp add: sales_pack_def lower_opening lower_Build lower_Closing lower_Ask)

lemma scan_nlp_rapport:
  "scan_sections ''rapport'' p (map (\<lambda>(k, t). (k, JStr t)) nlp_pack) acc = Inr acc"
  by (simp add: nlp_pack_def lower_anchoring lower_Link)

lemma demo_search_rapport:
  "search_pack demo_fs rapport_query None =
     Inr \<lparr>resp_query = ''rapport'',
          resp_results = [\<lparr>res_pack = ''sales'', res_section = ''opening'',
                            res_excerpt = ''Build rapport fast.''\<rparr>]\<rparr>"
  unfolding search_pack_def lower_rapport demo_scope
  by (simp add: demo_load_sales demo_load_nlp text_pack_def scan_sales_rapport scan_nlp_rapport)

lemma demo_search_blank:
  "search_pack demo_fs blank_query None =
     Inr \<lparr>resp_query = [],
          resp_results = [\<lparr>res_pack = ''sales'', res_section = ''opening'',
                            res_excerpt = ''Build rapport fast.''\<rparr>,
                          \<lparr>res_pack = ''sales'', res_section = ''Closing'',
                            res_excerpt = ''Ask for the order.''\<rparr>,
                          \<lparr>res_pack = ''nlp'', res_section = ''anchoring'',
                            res_excerpt = ''Link a state to a cue.''\<rparr>]\<rparr>"
  unfolding search_pack_def strip_blank demo_scope
  by (simp add: demo_load_sales demo_load_nlp text_pack_def scan_sections_text py_in_Nil
        sales_pack_def nlp_pack_def)

lemma broken_scope: "search_scope broken_fs (Some ''broken'') = Inr [''broken'']"
  by (simp add: search_scope_def)

lemma broken_scope_all: "search_scope broken_fs None = Inr [''sales'', ''broken'']"
  by (simp add: search_scope_def json_stems_def broken_fs_def endswith_def)

lemma broken_load: "load_pack broken_fs ''broken'' = Inl JSONDecodeError"
  by (simp add: load_pack_def lower_broken broken_fs_def)

lemma broken_load_sales: "load_pack broken_fs ''sales'' = Inr (text_pack sales_pack)"
  by (simp add: load_pack_def lower_sales broken_fs_def)

lemma broken_search: "search_pack broken_fs rapport_query (Some ''broken'') = Inl (Raised JSONDecodeError)"
  unfolding search_pack_def lower_rapport broken_scope
  by (simp add: broken_load)

lemma broken_search_all: "search_pack broken_fs rapport_query None = Inl (Raised JSONDecodeError)"
  unfolding search_pack_def lower_rapport broken_scope_all
  by (simp add: broken_load broken_load_sales text_pack_def scan_sales_rapport)

lemma broken_search_blank: "search_pack broken_fs blank_query None = Inl (Raised JSONDecodeError)"
  unfolding search_pack_def strip_blank broken_scope_all
  by (simp add: broken_load broken_load_sales text_pack_def scan_sections_text)

lemma mixed_catalog: "list_packs mixed_fs = Inr [''Drafts'', ''sales'']"
  by (simp add: list_packs_def json_stems_def mixed_fs_def endswith_def)

lemma mixed_scope: "search_scope mixed_fs None = Inr [''Drafts'', ''sales'']"
  by (simp add: search_scope_def json_stems_def mixed_fs_def endswith_def)

lemma mixed_Drafts_file:
  "file_at mixed_fs ''Drafts.json'' = Some (Content (text_pack [(''idea'', ''Rapport first.'')]))"
  by (simp add: mixed_fs_def)

lemma mixed_drafts: "file_at mixed_fs (lower ''Drafts'' @ ''.json'') = None"
  by (simp add: lower_Drafts mixed_fs_def)

lemma mixed_sales: "file_at mixed_fs (lower ''sales'' @ ''.json'') = Some (Content (text_pack sales_pack))"
  by (simp add: lower_sales mixed_fs_def)

lemma mixed_search:
  "search_pack mixed_fs rapport_query None =
     Inr \<lparr>resp_query = ''rapport'',
          resp_results = [\<lparr>res_pack = ''sales'', res_section = ''opening'',
                            res_excerpt = ''Build rapport fast.''\<rparr>]\<rparr>"
  unfolding search_pack_def lower_rapport mixed_scope
  by (simp add: load_pack_absent [OF mixed_drafts] load_pack_content [OF mixed_sales]
        text_pack_def scan_sales_rapport)

section \<open>Section filter\<close>

lemma filter_sections_obj: "\<exists>sections. filter_sections (JObj kvs) keys = Inr sections"
  by (simp add: filter_sections_def split: option.splits)

text \<open>
  C1. On a pack (a mapping from section keys to values), when the list of requested keys
  is absent or empty, \<open>filter_sections\<close> returns the pack unchanged. Otherwise it returns
  exactly the entries of the pack whose key is in the list: as a mapping, the result is the
  pack restricted to the requested keys that the pack has, so a requested key that the
  pack lacks gives no entry. In each case the function returns; it raises nothing.
\<close>

theorem filter_sections_spec:
  "filter_sections (JObj full_pack) None = Inr (JObj full_pack)
   \<and> filter_sections (JObj full_pack) (Some []) = Inr (JObj full_pack)
   \<and> (ks \<noteq> [] \<longrightarrow>
        (\<exists>kept. filter_sections (JObj full_pack) (Some ks) = Inr (JObj kept)
           \<and> set kept = {(k, v). (k, v) \<in> set full_pack \<and> k \<in> set ks}
           \<and> map_of kept = map_of full_pack |` (set ks \<inter> fst ` set full_pack)
           \<and> fst ` set kept = set ks \<inter> fst ` set full_pack))"
proof -
  let ?kept = "filter (\<lambda>x. fst x \<in> set ks) full_pack"
  have none: "filter_sections (JObj full_pack) None = Inr (JObj full_pack)"
    by (simp add: filter_sections_def)
  have nil: "filter_sections (JObj full_pack) (Some []) = Inr (JObj full_pack)"
    by (simp add: filter_sections_def)
  have comp: "[(k, v). (k, v) \<leftarrow> kvs, k \<in> set ks] = filter (\<lambda>x. fst x \<in> set ks) kvs"
    for kvs :: "(string \<times> json) list"
    by (induction kvs) auto
  have some: "filter_sections (JObj full_pack) (Some ks) = Inr (JObj ?kept)"
    if "ks \<noteq> []"
    using that by (simp add: filter_sections_def comp)
  have entries: "set ?kept = {(k, v). (k, v) \<in> set full_pack \<and> k \<in> set ks}"
    by auto
  have restr: "map_of ?kept = map_of full_pack |` (set ks \<inter> fst ` set full_pack)"
  proof
    fix k
    show "map_of ?kept k = (map_of full_pack |` (set ks \<inter> fst ` set full_pack)) k"
    proof (cases "k \<in> fst ` set full_pack")
      case True
      then show ?thesis
        by (simp add: map_of_filter [of "\<lambda>k. k \<in> set ks"] restrict_map_def)
    next
      case False
      then have "map_of full_pack k = None"
        by (simp add: map_of_eq_None_iff)
      then show ?thesis
        by (simp add: map_of_filter [of "\<lambda>k. k \<in> set ks"] restrict_map_def)
    qed
  qed
  have keys: "fst ` set ?kept = set ks \<inter> fst ` set full_pack"
    by force
  from some entries restr keys
  have "ks \<noteq> [] \<longrightarrow>
        (\<exists>kept. filter_sections (JObj full_pack) (Some ks) = Inr (JObj kept)
           \<and> set kept = {(k, v). (k, v) \<in> set full_pack \<and> k \<in> set ks}
           \<and> map_of kept = map_of full_pack |` (set ks \<inter> fst ` set full_pack)
           \<and> fst ` set kept = set ks \<inter> fst ` set full_pack)"
    by blast
  with none nil show ?thesis by blast
qed

text \<open>
  C1 at the sales pack, with one requested key that the pack has and one it lacks.
\<close>

theorem filter_sections_spec_witness:
  "[''Closing'', ''pricing''] \<noteq> []
   \<and> filter_sections (text_pack sales_pack) (Some [''Closing'', ''pricing''])
       = Inr (JObj [(''Closing'', JStr ''Ask for the order.'')])
   \<and> (\<exists>kept. filter_sections (text_pack sales_pack) (Some [''Closing'', ''pricing'']) = Inr (JObj kept)
         \<and> fst ` set kept = set [''Closing'', ''pricing''] \<inter> fst ` set sales_pack)"
proof -
  let ?kvs = "map (\<lambda>(k, t). (k, JStr t)) sales_pack"
  have h: "[''Closing'', ''pricing''] \<noteq> []" by simp
  have v: "filter_sections (text_pack sales_pack) (Some [''Closing'', ''pricing''])
             = Inr (JObj [(''Closing'', JStr ''Ask for the order.'')])"
    by (simp add: filter_sections_def text_pack_def sales_pack_def)
  have k: "fst ` set ?kvs = fst ` set sales_pack"
    by (simp add: sales_pack_def)
  from filter_sections_spec [of ?kvs "[''Closing'', ''pricing'']"] h
  obtain kept where "filter_sections (JObj ?kvs) (Some [''Closing'', ''pricing'']) = Inr (JObj kept)"
    "fst ` set kept = set [''Closing'', ''pricing''] \<inter> fst ` set ?kvs"
    by blast
  then have "\<exists>kept. filter_sections (text_pack sales_pack) (Some [''Closing'', ''pricing'']) = Inr (JObj kept)
         \<and> fst ` set kept = set [''Closing'', ''pricing''] \<inter> fst ` set sales_pack"
    unfolding text_pack_def k by blast
  with h v show ?thesis by blast
qed

section \<open>Fetching a pack\<close>

text \<open>
  C7, as stated, fails for a catalog name that is not all lowercase: a data directory that
  holds \<open>Drafts.json\<close>, a document that parses to a mapping, has \<open>Drafts\<close> in its
  catalog, and \<open>get_pack\<close> for \<open>Drafts\<close> without a filter looks up \<open>drafts.json\<close>
  and answers 404.
\<close>

theorem catalog_name_counterexample:
  "list_packs mixed_fs = Inr [''Drafts'', ''sales'']
   \<and> file_at mixed_fs ''Drafts.json'' = Some (Content (text_pack [(''idea'', ''Rapport first.'')]))
   \<and> req_pack drafts_request = ''Drafts''
   \<and> req_sections drafts_request = None
   \<and> get_pack mixed_fs drafts_request
       = Inl (HTTPException 404 (''Pack '' @ [CHR 0x27] @ ''drafts'' @ [CHR 0x27] @ '' not found.''))"
proof -
  have a: "file_at mixed_fs (lower ''drafts'' @ ''.json'') = None"
    by (simp add: lower_drafts mixed_fs_def)
  have g: "get_pack mixed_fs drafts_request
       = Inl (HTTPException 404 (''Pack '' @ [CHR 0x27] @ ''drafts'' @ [CHR 0x27] @ '' not found.''))"
    by (simp add: get_pack_def drafts_request_def lower_Drafts load_pack_absent [OF a])
  from mixed_catalog mixed_Drafts_file g show ?thesis
    by (simp add: drafts_request_def)
qed

text \<open>
  C7, amended. When the document of the data directory whose name is the lowercased pack
  name followed by \<open>.json\<close> exists and parses to a mapping, \<open>get_pack\<close> for that name
  with no \<open>sections\<close> filter returns a response whose content is that mapping
  itself.
\<close>

theorem get_pack_unfiltered:
  assumes "file_at fs (lower (req_pack req) @ ''.json'') = Some (Content (JObj kvs))"
    and "req_sections req = None"
  shows "\<exists>resp. get_pack fs req = Inr resp \<and> gp_content resp = JObj kvs"
  using assms
  by (simp add: get_pack_def Let_def load_pack_lower_content filter_sections_def)

text \<open>
  C7, amended, at the sales pack of the example catalog, requested as \<open>Sales\<close>.
\<close>

theorem get_pack_unfiltered_witness:
  "file_at demo_fs (lower (req_pack sales_request) @ ''.json'') = Some (Content (text_pack sales_pack))
   \<and> req_sections sales_request = None
   \<and> (\<exists>resp. get_pack demo_fs sales_request = Inr resp \<and> gp_content resp = text_pack sales_pack)"
proof -
  have h1: "file_at demo_fs (lower (req_pack sales_request) @ ''.json'')
              = Some (Content (JObj (map (\<lambda>(k, t). (k, JStr t)) sales_pack)))"
    by (simp add: sales_request_def demo_fs_sales text_pack_def [symmetric])
  have h2: "req_sections sales_request = None"
    by (simp add: sales_request_def)
  from get_pack_unfiltered [OF h1 h2] h1 h2 show ?thesis
    unfolding text_pack_def by blast
qed

section \<open>Rendering a payload\<close>

text \<open>
  C6. For a request on an existing pack (the document of the lowercased name exists and
  parses to a mapping), \<open>render_payload\<close> returns a payload whose style has the
  lowercased pack name as theme, the fixed three-colour palette of that lowercased name
  when it is \<open>nlp\<close>, \<open>hypnosis\<close> or \<open>sales\<close> and the empty record otherwise, and the
  two fonts \<open>Inter\<close> and \<open>Nunito\<close>; the options of the payload are those of the request,
  or the empty record when the request has none.
\<close>

theorem render_payload_style:
  assumes "file_at fs (lower (req_pack req) @ ''.json'') = Some (Content (JObj kvs))"
  shows "\<exists>pl. render_payload fs req = Inr pl
           \<and> theme (pl_style pl) = lower (req_pack req)
           \<and> palette (pl_style pl) =
               (if lower (req_pack req) = ''nlp''
                then [(''bg'', ''#ffffff''), (''primary'', ''#0B5F9A''), (''accent'', ''#2A9D7D'')]
                else if lower (req_pack req) = ''hypnosis''
                then [(''bg'', ''#e8f2ff''), (''primary'', ''#4750B8''), (''accent'', ''#2AA199'')]
                else if lower (req_pack req) = ''sales''
                then [(''bg'', ''#fff9e6''), (''primary'', ''#D9534F''), (''accent'', ''#E89E2D'')]
                else [])
           \<and> fonts (pl_style pl) = [''Inter'', ''Nunito'']
           \<and> pl_options pl = (case req_options req of None \<Rightarrow> [] | Some d \<Rightarrow> d)"
proof -
  from filter_sections_obj obtain sections where
    f: "filter_sections (JObj kvs) (req_sections req) = Inr sections"
    by blast
  let ?pl = "\<lparr>pl_pack = req_pack req,
              pl_style = \<lparr>theme = lower (req_pack req),
                          palette = (case map_of palettes (lower (req_pack req)) of
                                       None \<Rightarrow> [] | Some pal \<Rightarrow> pal),
                          fonts = [''Inter'', ''Nunito'']\<rparr>,
              pl_sections = sections,
              pl_options = or_empty (req_options req)\<rparr>"
  have r: "render_payload fs req = Inr ?pl"
    using assms f by (simp add: render_payload_def load_pack_lower_content)
  have o: "or_empty (req_options req) = (case req_options req of None \<Rightarrow> [] | Some d \<Rightarrow> d)"
    by (simp add: or_empty_def split: option.splits)
  have p: "(case map_of palettes (lower (req_pack req)) of None \<Rightarrow> [] | Some pal \<Rightarrow> pal) =
             (if lower (req_pack req) = ''nlp''
              then [(''bg'', ''#ffffff''), (''primary'', ''#0B5F9A''), (''accent'', ''#2A9D7D'')]
              else if lower (req_pack req) = ''hypnosis''
              then [(''bg'', ''#e8f2ff''), (''primary'', ''#4750B8''), (''accent'', ''#2AA199'')]
              else if lower (req_pack req) = ''sales''
              then [(''bg'', ''#fff9e6''), (''primary'', ''#D9534F''), (''accent'', ''#E89E2D'')]
              else [])"
    by (simp add: palettes_def)
  from r o p show ?thesis by simp
qed

text \<open>
  C6 at the sales pack, requested as \<open>Sales\<close> without options.
\<close>

theorem render_payload_style_witness:
  "file_at demo_fs (lower (req_pack sales_request) @ ''.json'') = Some (Content (text_pack sales_pack))
   \<and> (\<exists>pl. render_payload demo_fs sales_request = Inr pl
            \<and> theme (pl_style pl) = ''sales''
            \<and> palette (pl_style pl) = [(''bg'', ''#fff9e6''), (''primary'', ''#D9534F''), (''accent'', ''#E89E2D'')]
            \<and> fonts (pl_style pl) = [''Inter'', ''Nunito'']
            \<and> pl_options pl = [])"
proof -
  have h0: "file_at demo_fs (lower (req_pack sales_request) @ ''.json'') = Some (Content (text_pack sales_pack))"
    by (simp add: sales_request_def demo_fs_sales)
  then have h1: "file_at demo_fs (lower (req_pack sales_request) @ ''.json'')
              = Some (Content (JObj (map (\<lambda>(k, t). (k, JStr t)) sales_pack)))"
    by (simp only: text_pack_def)
  have l: "lower (req_pack sales_request) = ''sales''"
    by (simp add: sales_request_def lower_Sales)
  have o: "req_options sales_request = None"
    by (simp add: sales_request_def)
  from render_payload_style [OF h1] obtain pl where
    "render_payload demo_fs sales_request = Inr pl"
    "theme (pl_style pl) = lower (req_pack sales_request)"
    "palette (pl_style pl) =
               (if lower (req_pack sales_request) = ''nlp''
                then [(''bg'', ''#ffffff''), (''primary'', ''#0B5F9A''), (''accent'', ''#2A9D7D'')]
                else if lower (req_pack sales_request) = ''hypnosis''
                then [(''bg'', ''#e8f2ff''), (''primary'', ''#4750B8''), (''accent'', ''#2AA199'')]
                else if lower (req_pack sales_request) = ''sales''
                then [(''bg'', ''#fff9e6''), (''primary'', ''#D9534F''), (''accent'', ''#E89E2D'')]
                else [])"
    "fonts (pl_style pl) = [''Inter'', ''Nunito'']"
    "pl_options pl = (case req_options sales_request of None \<Rightarrow> [] | Some d \<Rightarrow> d)"
    by blast
  then have "render_payload demo_fs sales_request = Inr pl
            \<and> theme (pl_style pl) = ''sales''
            \<and> palette (pl_style pl) = [(''bg'', ''#fff9e6''), (''primary'', ''#D9534F''), (''accent'', ''#E89E2D'')]
            \<and> fonts (pl_style pl) = [''Inter'', ''Nunito'']
            \<and> pl_options pl = []"
    by (simp add: l o)
  with h0 show ?thesis by blast
qed

section \<open>The pack field of the two responses\<close>

text \<open>
  C9. The \<open>pack\<close> field of a \<open>get_pack\<close> response is the lowercased name of the
  request; the \<open>pack\<close> field of a \<open>render_payload\<close> response is the name as the request
  spells it. For a request that names an existing pack with a spelling that is not all
  lowercase, both endpoints answer and the two fields differ.
\<close>

theorem pack_field_echo:
  "(get_pack fs req = Inr resp \<longrightarrow> gp_pack resp = lower (req_pack req))
   \<and> (render_payload fs req = Inr pl \<longrightarrow> pl_pack pl = req_pack req)
   \<and> (file_at fs (lower (req_pack req) @ ''.json'') = Some (Content (JObj kvs))
        \<and> lower (req_pack req) \<noteq> req_pack req \<longrightarrow>
        (\<exists>resp' pl'. get_pack fs req = Inr resp' \<and> render_payload fs req = Inr pl'
                      \<and> gp_pack resp' = lower (req_pack req) \<and> pl_pack pl' = req_pack req
                      \<and> gp_pack resp' \<noteq> pl_pack pl'))"
proof -
  have g: "gp_pack resp = lower (req_pack req)" if "get_pack fs req = Inr resp"
    using that
    by (auto simp: get_pack_def Let_def split: sum.splits py_error.splits)
  have r: "pl_pack pl = req_pack req" if "render_payload fs req = Inr pl"
    using that
    by (auto simp: render_payload_def split: sum.splits py_error.splits)
  have b: "\<exists>resp' pl'. get_pack fs req = Inr resp' \<and> render_payload fs req = Inr pl'
                      \<and> gp_pack resp' = lower (req_pack req) \<and> pl_pack pl' = req_pack req
                      \<and> gp_pack resp' \<noteq> pl_pack pl'"
    if f: "file_at fs (lower (req_pack req) @ ''.json'') = Some (Content (JObj kvs))"
      and n: "lower (req_pack req) \<noteq> req_pack req"
  proof -
    from filter_sections_obj obtain sections where
      s: "filter_sections (JObj kvs) (req_sections req) = Inr sections"
      by blast
    from f s n show ?thesis
      by (simp add: get_pack_def render_payload_def Let_def load_pack_lower_content)
  qed
  from g r b show ?thesis by blast
qed

text \<open>
  C9 at the sales pack, requested as \<open>Sales\<close>.
\<close>

theorem pack_field_echo_witness:
  "file_at demo_fs (lower (req_pack sales_request) @ ''.json'') = Some (Content (text_pack sales_pack))
   \<and> lower (req_pack sales_request) \<noteq> req_pack sales_request
   \<and> (\<exists>resp pl. get_pack demo_fs sales_request = Inr resp
         \<and> render_payload demo_fs sales_request = Inr pl
         \<and> gp_pack resp = ''sales'' \<and> pl_pack pl = ''Sales'')"
proof -
  have h0: "file_at demo_fs (lower (req_pack sales_request) @ ''.json'') = Some (Content (text_pack sales_pack))"
    by (simp add: sales_request_def demo_fs_sales)
  then have h1: "file_at demo_fs (lower (req_pack sales_request) @ ''.json'')
              = Some (Content (JObj (map (\<lambda>(k, t). (k, JStr t)) sales_pack)))"
    by (simp only: text_pack_def)
  have r: "req_pack sales_request = ''Sales''"
    by (simp add: sales_request_def)
  have h2: "lower (req_pack sales_request) \<noteq> req_pack sales_request"
    by (simp add: r lower_Sales)
  from pack_field_echo [of demo_fs sales_request _ _ "map (\<lambda>(k, t). (k, JStr t)) sales_pack"] h1 h2
  obtain resp pl where "get_pack demo_fs sales_request = Inr resp"
    "render_payload demo_fs sales_request = Inr pl"
    "gp_pack resp = lower (req_pack sales_request)" "pl_pack pl = req_pack sales_request"
    by blast
  then have "get_pack demo_fs sales_request = Inr resp
         \<and> render_payload demo_fs sales_request = Inr pl
         \<and> gp_pack resp = ''sales'' \<and> pl_pack pl = ''Sales''"
    by (simp add: r lower_Sales)
  with h0 h2 show ?thesis by blast
qed

section \<open>Packs without a backing document\<close>

text \<open>
  C4, as stated, fails at the preview endpoint: for the pack name \<open>unknownpack\<close>, which
  has no document in the example catalog, \<open>preview\<close> fails with status 404 and the
  fixed message \<open>Pack not found\<close>, in which the requested name does not occur.
\<close>

theorem preview_message_counterexample:
  "file_at demo_fs (lower ''unknownpack'' @ ''.json'') = None
   \<and> preview example_title example_str demo_fs ''unknownpack''
       = Inl (HTTPException 404 ''Pack not found'')
   \<and> \<not> py_in ''unknownpack'' ''Pack not found''"
proof -
  have a: "file_at demo_fs (lower ''unknownpack'' @ ''.json'') = None"
    by (simp add: lower_unknownpack demo_fs_def)
  have b: "preview example_title example_str demo_fs ''unknownpack''
             = Inl (HTTPException 404 ''Pack not found'')"
    by (simp add: preview_def load_pack_absent [OF a])
  have c: "\<not> py_in ''unknownpack'' ''Pack not found''"
    by simp
  from a b c show ?thesis by blast
qed

text \<open>
  C4, amended. For a pack name with no backing document, \<open>get_pack\<close>,
  \<open>render_payload\<close> and \<open>preview\<close> each fail with status 404. The message of
  \<open>get_pack\<close> quotes the lowercased name, the message of \<open>render_payload\<close> quotes the
  name as requested, and the message of \<open>preview\<close> is the fixed text
  \<open>Pack not found\<close>.
\<close>

theorem not_found_responses:
  assumes "file_at fs (lower name @ ''.json'') = None"
  shows "get_pack fs (req\<lparr>req_pack := name\<rparr>)
           = Inl (HTTPException 404 (''Pack '' @ [CHR 0x27] @ lower name @ [CHR 0x27] @ '' not found.''))
       \<and> render_payload fs (req\<lparr>req_pack := name\<rparr>)
           = Inl (HTTPException 404 (''Pack '' @ [CHR 0x27] @ name @ [CHR 0x27] @ '' not found.''))
       \<and> preview title py_str fs name = Inl (HTTPException 404 ''Pack not found'')
       \<and> py_in (lower name) (''Pack '' @ [CHR 0x27] @ lower name @ [CHR 0x27] @ '' not found.'')
       \<and> py_in name (''Pack '' @ [CHR 0x27] @ name @ [CHR 0x27] @ '' not found.'')
       \<and> status_code (get_pack fs (req\<lparr>req_pack := name\<rparr>)) = 404
       \<and> status_code (render_payload fs (req\<lparr>req_pack := name\<rparr>)) = 404
       \<and> status_code (preview title py_str fs name) = 404"
proof -
  have g: "get_pack fs (req\<lparr>req_pack := name\<rparr>)
           = Inl (HTTPException 404 (''Pack '' @ [CHR 0x27] @ lower name @ [CHR 0x27] @ '' not found.''))"
    by (simp add: get_pack_def Let_def load_pack_lower_absent [OF assms])
  have r: "render_payload fs (req\<lparr>req_pack := name\<rparr>)
           = Inl (HTTPException 404 (''Pack '' @ [CHR 0x27] @ name @ [CHR 0x27] @ '' not found.''))"
    by (simp add: render_payload_def load_pack_lower_absent [OF assms])
  have p: "preview title py_str fs name = Inl (HTTPException 404 ''Pack not found'')"
    by (simp add: preview_def load_pack_absent [OF assms])
  have s1: "py_in (lower name) (''Pack '' @ [CHR 0x27] @ lower name @ [CHR 0x27] @ '' not found.'')"
    using py_in_middle [of "lower name" "''Pack '' @ [CHR 0x27]" "[CHR 0x27] @ '' not found.''"]
    by simp
  have s2: "py_in name (''Pack '' @ [CHR 0x27] @ name @ [CHR 0x27] @ '' not found.'')"
    using py_in_middle [of name "''Pack '' @ [CHR 0x27]" "[CHR 0x27] @ '' not found.''"]
    by simp
  from g r p s1 s2 show ?thesis by simp
qed

text \<open>
  C4, amended, at the name \<open>Unknown\<close> in the example catalog.
\<close>

theorem not_found_responses_witness:
  "file_at demo_fs (lower ''Unknown'' @ ''.json'') = None
   \<and> get_pack demo_fs (sales_request\<lparr>req_pack := ''Unknown''\<rparr>)
       = Inl (HTTPException 404 (''Pack '' @ [CHR 0x27] @ ''unknown'' @ [CHR 0x27] @ '' not found.''))
   \<and> render_payload demo_fs (sales_request\<lparr>req_pack := ''Unknown''\<rparr>)
       = Inl (HTTPException 404 (''Pack '' @ [CHR 0x27] @ ''Unknown'' @ [CHR 0x27] @ '' not found.''))
   \<and> preview example_title example_str demo_fs ''Unknown''
       = Inl (HTTPException 404 ''Pack not found'')"
proof -
  have a: "file_at demo_fs (lower ''Unknown'' @ ''.json'') = None"
    by (simp add: lower_Unknown demo_fs_def)
  from not_found_responses [OF a, of sales_request example_title example_str] a show ?thesis
    by (simp add: lower_Unknown)
qed

section \<open>The schema endpoint\<close>

text \<open>
  C8, as stated, fails when the metadata file exists and is not valid JSON: \<open>schema\<close>
  has no handler around \<open>json.load\<close>, so the decode error leaves the endpoint and the
  response has status 500.
\<close>

theorem schema_raises_counterexample:
  "config_file broken_fs = Some (Unloadable JSONDecodeError)
   \<and> schema broken_fs = Inl (Raised JSONDecodeError)
   \<and> status_code (schema broken_fs) = 500"
  by (simp add: schema_def broken_fs_def)

text \<open>
  C8, amended. When the metadata file exists and is read and parsed, \<open>schema\<close> returns
  its contents; when the file is missing it returns the body
  \<open>{"error": "config.json missing"}\<close> with status 200, not a not-found status. When
  the file exists and reading or parsing it raises, the exception leaves the endpoint.
\<close>

theorem schema_responses:
  "(config_file fs = Some (Content cfg) \<longrightarrow> schema fs = Inr cfg)
   \<and> (config_file fs = None \<longrightarrow>
        schema fs = Inr (JObj [(''error'', JStr ''config.json missing'')])
        \<and> status_code (schema fs) = 200)
   \<and> (config_file fs = Some (Unloadable e) \<longrightarrow>
        schema fs = Inl (Raised e) \<and> status_code (schema fs) = 500)"
  by (simp add: schema_def)

text \<open>
  C8, amended, with a metadata file that parses, with none, and with a malformed one.
\<close>

theorem schema_responses_witness:
  "config_file (demo_fs\<lparr>config_file := Some (Content (JObj [(''title'', JStr ''Toolkit'')]))\<rparr>)
     = Some (Content (JObj [(''title'', JStr ''Toolkit'')]))
   \<and> schema (demo_fs\<lparr>config_file := Some (Content (JObj [(''title'', JStr ''Toolkit'')]))\<rparr>)
       = Inr (JObj [(''title'', JStr ''Toolkit'')])
   \<and> config_file demo_fs = None
   \<and> schema demo_fs = Inr (JObj [(''error'', JStr ''config.json missing'')])
   \<and> status_code (schema demo_fs) = 200
   \<and> config_file broken_fs = Some (Unloadable JSONDecodeError)
   \<and> schema broken_fs = Inl (Raised JSONDecodeError)"
proof -
  have a: "config_file (demo_fs\<lparr>config_file := Some (Content (JObj [(''title'', JStr ''Toolkit'')]))\<rparr>)
     = Some (Content (JObj [(''title'', JStr ''Toolkit'')]))"
    by simp
  have b: "config_file demo_fs = None"
    by (simp add: demo_fs_def)
  have c: "config_file broken_fs = Some (Unloadable JSONDecodeError)"
    by (simp add: broken_fs_def)
  from a b c
    schema_responses [of "demo_fs\<lparr>config_file := Some (Content (JObj [(''title'', JStr ''Toolkit'')]))\<rparr>"
                         "JObj [(''title'', JStr ''Toolkit'')]"]
    schema_responses [of demo_fs]
    schema_responses [of broken_fs _ JSONDecodeError]
  show ?thesis by blast
qed

section \<open>Search\<close>

lemma scan_packs_total:
  assumes "\<forall>p \<in> set ps. file_at fs (lower p @ ''.json'') = None
             \<or> (\<exists>sections. file_at fs (lower p @ ''.json'') = Some (Content (text_pack sections)))"
  shows "\<exists>res. scan_packs fs q ps acc = Inr res"
  using assms
proof (induction ps arbitrary: acc)
  case Nil
  then show ?case by simp
next
  case (Cons p ps)
  from Cons.prems have rest: "\<forall>p \<in> set ps. file_at fs (lower p @ ''.json'') = None
             \<or> (\<exists>sections. file_at fs (lower p @ ''.json'') = Some (Content (text_pack sections)))"
    by simp
  from Cons.prems consider "file_at fs (lower p @ ''.json'') = None"
    | sections where "file_at fs (lower p @ ''.json'') = Some (Content (text_pack sections))"
    by auto
  then show ?case
  proof cases
    case 1
    with Cons.IH [OF rest] show ?thesis by (simp add: load_pack_absent)
  next
    case 2
    then have "load_pack fs p = Inr (JObj (map (\<lambda>(k, t). (k, JStr t)) sections))"
      by (simp add: load_pack_content text_pack_def)
    with Cons.IH [OF rest] show ?thesis by (simp add: scan_sections_text)
  qed
qed

text \<open>
  C2, as stated, fails when another pack of the scope cannot be loaded: with the sales pack
  and a malformed document in the data directory, the sales pack loads and the query
  \<open>rapport\<close> occurs in its section \<open>opening\<close>, yet \<open>search_pack\<close> answers with no
  result for it: the decode error of the other pack leaves the endpoint.
\<close>

theorem search_lost_counterexample:
  "search_scope broken_fs None = Inr [''sales'', ''broken'']
   \<and> load_pack broken_fs ''sales'' = Inr (text_pack sales_pack)
   \<and> text_pack sales_pack = JObj [(''opening'', JStr ''Build rapport fast.''),
                                   (''Closing'', JStr ''Ask for the order.'')]
   \<and> py_in (strip (lower (req_q rapport_query))) (lower ''opening'' @ '' '' @ lower ''Build rapport fast.'')
   \<and> search_pack broken_fs rapport_query None = Inl (Raised JSONDecodeError)"
proof -
  have t: "text_pack sales_pack = JObj [(''opening'', JStr ''Build rapport fast.''),
                                   (''Closing'', JStr ''Ask for the order.'')]"
    by (simp add: text_pack_def sales_pack_def)
  have m: "py_in (strip (lower (req_q rapport_query))) (lower ''opening'' @ '' '' @ lower ''Build rapport fast.'')"
    by (simp add: strip_lower lower_rapport lower_opening lower_Build)
  from broken_scope_all broken_load_sales t m broken_search_all show ?thesis
    by (intro conjI)
qed

text \<open>
  C2, amended. Whenever \<open>search_pack\<close> returns a response, for every section
  \<open>(sec, text)\<close> of a pack that is in the search scope and loads, the results hold the
  record of that section (the pack name, the section key as the document spells it, and the
  excerpt) if and only if the trimmed lowercase query occurs in
  \<open>lower sec + " " + lower text\<close> as a contiguous block; and any result with that pack
  name and section key is that record. The condition reads the query, the key and the text
  through \<open>lower\<close> only, so the match is insensitive to case. Section keys of a pack are
  unique, as in a dictionary.
\<close>

theorem search_match_iff:
  assumes ret: "search_pack fs req pack_param = Inr resp"
    and scope: "search_scope fs pack_param = Inr ps"
    and inps: "p \<in> set ps"
    and load: "load_pack fs p = Inr (JObj kvs)"
    and keys: "distinct (map fst kvs)"
    and sect: "(sec, JStr text) \<in> set kvs"
  shows "(\<lparr>res_pack = p, res_section = sec, res_excerpt = take 300 text\<rparr> \<in> set (resp_results resp)
           \<longleftrightarrow> (\<exists>pre post. lower sec @ '' '' @ lower text = pre @ strip (lower (req_q req)) @ post))
       \<and> (\<forall>r \<in> set (resp_results resp). res_pack r = p \<and> res_section r = sec \<longrightarrow>
             r = \<lparr>res_pack = p, res_section = sec, res_excerpt = take 300 text\<rparr>)"
proof -
  let ?q = "lower (strip (req_q req))"
  let ?hit = "\<lparr>res_pack = p, res_section = sec, res_excerpt = take 300 text\<rparr>"
  from search_pack_Inr [OF ret] scope
  have scan: "scan_packs fs ?q ps [] = Inr (resp_results resp)"
    by auto
  note mem = scan_packs_mem [OF scan]
  have origin: "r = ?hit \<and> py_in ?q (lower sec @ '' '' @ lower text)"
    if "r \<in> set (resp_results resp)" "res_pack r = p" "res_section r = sec" for r
  proof -
    from that(1) mem [of r] obtain p' kvs' sec' t' where
      a: "load_pack fs p' = Inr (JObj kvs')" "(sec', JStr t') \<in> set kvs'"
         "py_in ?q (lower sec' @ '' '' @ lower t')"
         "r = \<lparr>res_pack = p', res_section = sec', res_excerpt = take 300 t'\<rparr>"
      by blast
    from a(4) that(2) that(3) have e: "p' = p" "sec' = sec" by simp_all
    with a(1) load have "kvs' = kvs" by simp
    with a(2) e have "(sec, JStr t') \<in> set kvs" by simp
    from distinct_keys_unique [OF keys this sect] have "t' = text" by simp
    with a(3) a(4) e show ?thesis by simp
  qed
  have fwd: "py_in ?q (lower sec @ '' '' @ lower text)" if "?hit \<in> set (resp_results resp)"
    using origin [OF that] by simp
  have bwd: "?hit \<in> set (resp_results resp)" if "py_in ?q (lower sec @ '' '' @ lower text)"
  proof -
    have "\<exists>p' kvs' sec' t'. p' \<in> set ps \<and> load_pack fs p' = Inr (JObj kvs')
            \<and> (sec', JStr t') \<in> set kvs' \<and> py_in ?q (lower sec' @ '' '' @ lower t')
            \<and> ?hit = \<lparr>res_pack = p', res_section = sec', res_excerpt = take 300 t'\<rparr>"
      using inps load sect that by blast
    then show ?thesis by (simp only: mem [of ?hit])
  qed
  have sub: "py_in ?q (lower sec @ '' '' @ lower text)
               \<longleftrightarrow> (\<exists>pre post. lower sec @ '' '' @ lower text = pre @ strip (lower (req_q req)) @ post)"
    by (simp only: py_in_iff strip_lower)
  have iff: "?hit \<in> set (resp_results resp)
               \<longleftrightarrow> (\<exists>pre post. lower sec @ '' '' @ lower text = pre @ strip (lower (req_q req)) @ post)"
    using fwd bwd sub by blast
  have uniq: "\<forall>r \<in> set (resp_results resp). res_pack r = p \<and> res_section r = sec \<longrightarrow> r = ?hit"
    using origin by blast
  from iff uniq show ?thesis by (rule conjI)
qed

text \<open>
  C2, amended, at the example catalog and the query \<open>RAPPORT\<close> in upper case with blanks
  around it: the section \<open>opening\<close> of the sales pack is found, the section
  \<open>Closing\<close> is not.
\<close>

theorem search_match_iff_witness:
  "search_pack demo_fs rapport_query None =
     Inr \<lparr>resp_query = ''rapport'',
          resp_results = [\<lparr>res_pack = ''sales'', res_section = ''opening'',
                            res_excerpt = ''Build rapport fast.''\<rparr>]\<rparr>
   \<and> search_scope demo_fs None = Inr [''sales'', ''nlp'']
   \<and> ''sales'' \<in> set [''sales'', ''nlp'']
   \<and> load_pack demo_fs ''sales'' = Inr (JObj [(''opening'', JStr ''Build rapport fast.''),
                                              (''Closing'', JStr ''Ask for the order.'')])
   \<and> distinct (map fst [(''opening'', JStr ''Build rapport fast.''),
                         (''Closing'', JStr ''Ask for the order.'')])
   \<and> (\<exists>pre post. lower ''opening'' @ '' '' @ lower ''Build rapport fast.''
                       = pre @ strip (lower (req_q rapport_query)) @ post)
   \<and> \<not> (\<exists>pre post. lower ''Closing'' @ '' '' @ lower ''Ask for the order.''
                       = pre @ strip (lower (req_q rapport_query)) @ post)"
proof -
  let ?kvs = "[(''opening'', JStr ''Build rapport fast.''), (''Closing'', JStr ''Ask for the order.'')]"
  let ?resp = "\<lparr>resp_query = ''rapport'',
                resp_results = [\<lparr>res_pack = ''sales'', res_section = ''opening'',
                                  res_excerpt = ''Build rapport fast.''\<rparr>]\<rparr>"
  have sc: "''sales'' \<in> set [''sales'', ''nlp'']"
    by simp
  have ld: "load_pack demo_fs ''sales'' = Inr (JObj ?kvs)"
    by (simp add: demo_load_sales text_pack_def sales_pack_def)
  have dk: "distinct (map fst ?kvs)"
    by simp
  have s1: "(''opening'', JStr ''Build rapport fast.'') \<in> set ?kvs"
    by simp
  have s2: "(''Closing'', JStr ''Ask for the order.'') \<in> set ?kvs"
    by simp
  have in1: "\<lparr>res_pack = ''sales'', res_section = ''opening'',
               res_excerpt = take 300 ''Build rapport fast.''\<rparr> \<in> set (resp_results ?resp)"
    by simp
  have in2: "\<lparr>res_pack = ''sales'', res_section = ''Closing'',
               res_excerpt = take 300 ''Ask for the order.''\<rparr> \<notin> set (resp_results ?resp)"
    by simp
  from search_match_iff [OF demo_search_rapport demo_scope sc ld dk s1] in1
  have m1: "\<exists>pre post. lower ''opening'' @ '' '' @ lower ''Build rapport fast.''
                       = pre @ strip (lower (req_q rapport_query)) @ post"
    by blast
  from search_match_iff [OF demo_search_rapport demo_scope sc ld dk s2] in2
  have m2: "\<not> (\<exists>pre post. lower ''Closing'' @ '' '' @ lower ''Ask for the order.''
                       = pre @ strip (lower (req_q rapport_query)) @ post)"
    by blast
  from demo_search_rapport demo_scope sc ld dk m1 m2 show ?thesis
    by (intro conjI)
qed

text \<open>
  C3. Whenever \<open>search_pack\<close> returns a response, every result has an excerpt of at
  most 300 characters, and it comes from a section of a pack in scope whose text the
  excerpt is cut from: the first 300 characters when the text is longer than 300, the
  whole text otherwise.
\<close>

theorem excerpt_bound:
  assumes ret: "search_pack fs req pack_param = Inr resp"
    and r: "r \<in> set (resp_results resp)"
  shows "length (res_excerpt r) \<le> 300
       \<and> (\<exists>ps kvs text. search_scope fs pack_param = Inr ps
             \<and> res_pack r \<in> set ps
             \<and> load_pack fs (res_pack r) = Inr (JObj kvs)
             \<and> (res_section r, JStr text) \<in> set kvs
             \<and> res_excerpt r = take 300 text
             \<and> (300 < length text \<longrightarrow> length (res_excerpt r) = 300)
             \<and> (length text \<le> 300 \<longrightarrow> res_excerpt r = text))"
proof -
  from search_pack_Inr [OF ret] obtain ps where
    scope: "search_scope fs pack_param = Inr ps"
    and scan: "scan_packs fs (lower (strip (req_q req))) ps [] = Inr (resp_results resp)"
    by blast
  from scan_packs_mem [OF scan, of r] r obtain p kvs sec t where
    a: "p \<in> set ps" "load_pack fs p = Inr (JObj kvs)" "(sec, JStr t) \<in> set kvs"
       "r = \<lparr>res_pack = p, res_section = sec, res_excerpt = take 300 t\<rparr>"
    by blast
  from a(4) have f: "res_pack r = p" "res_section r = sec" "res_excerpt r = take 300 t"
    by simp_all
  have len: "length (res_excerpt r) \<le> 300" using f by simp
  have long: "300 < length t \<longrightarrow> length (res_excerpt r) = 300" using f by simp
  have short: "length t \<le> 300 \<longrightarrow> res_excerpt r = t" using f by simp
  have "search_scope fs pack_param = Inr ps
             \<and> res_pack r \<in> set ps
             \<and> load_pack fs (res_pack r) = Inr (JObj kvs)
             \<and> (res_section r, JStr t) \<in> set kvs
             \<and> res_excerpt r = take 300 t
             \<and> (300 < length t \<longrightarrow> length (res_excerpt r) = 300)
             \<and> (length t \<le> 300 \<longrightarrow> res_excerpt r = t)"
    using scope a(1) a(2) a(3) f long short by simp
  then have "\<exists>ps kvs text. search_scope fs pack_param = Inr ps
             \<and> res_pack r \<in> set ps
             \<and> load_pack fs (res_pack r) = Inr (JObj kvs)
             \<and> (res_section r, JStr text) \<in> set kvs
             \<and> res_excerpt r = take 300 text
             \<and> (300 < length text \<longrightarrow> length (res_excerpt r) = 300)
             \<and> (length text \<le> 300 \<longrightarrow> res_excerpt r = text)"
    by blast
  with len show ?thesis by (rule conjI)
qed


text \<open>
  C3 at the result of the same search.
\<close>

theorem excerpt_bound_witness:
  "search_pack demo_fs rapport_query None =
     Inr \<lparr>resp_query = ''rapport'',
          resp_results = [\<lparr>res_pack = ''sales'', res_section = ''opening'',
                            res_excerpt = ''Build rapport fast.''\<rparr>]\<rparr>
   \<and> \<lparr>res_pack = ''sales'', res_section = ''opening'', res_excerpt = ''Build rapport fast.''\<rparr>
       \<in> set (resp_results \<lparr>resp_query = ''rapport'',
          resp_results = [\<lparr>res_pack = ''sales'', res_section = ''opening'',
                            res_excerpt = ''Build rapport fast.''\<rparr>]\<rparr>)
   \<and> length (res_excerpt \<lparr>res_pack = ''sales'', res_section = ''opening'',
                             res_excerpt = ''Build rapport fast.''\<rparr>) \<le> 300"
proof -
  let ?hit = "\<lparr>res_pack = ''sales'', res_section = ''opening'', res_excerpt = ''Build rapport fast.''\<rparr>"
  let ?resp = "\<lparr>resp_query = ''rapport'', resp_results = [?hit]\<rparr>"
  have m: "?hit \<in> set (resp_results ?resp)" by simp
  from excerpt_bound [OF demo_search_rapport m]
  have "length (res_excerpt ?hit) \<le> 300" by (rule conjunct1)
  with demo_search_rapport m show ?thesis by (intro conjI)
qed

text \<open>
  C5, as stated, fails for a pack whose load fails with a decode error: the loop of
  \<open>search_pack\<close> catches \<open>FileNotFoundError\<close> only. A search scoped to the pack
  \<open>broken\<close>, whose document is not valid JSON, surfaces the error (status 500).
\<close>

theorem search_decode_error_counterexample:
  "search_scope broken_fs (Some ''broken'') = Inr [''broken'']
   \<and> load_pack broken_fs ''broken'' = Inl JSONDecodeError
   \<and> search_pack broken_fs rapport_query (Some ''broken'') = Inl (Raised JSONDecodeError)
   \<and> status_code (search_pack broken_fs rapport_query (Some ''broken'')) = 500"
  by (simp add: broken_scope broken_load broken_search)

text \<open>
  C5, amended. A pack of the search scope that has no backing document is skipped: the
  answer of \<open>search_pack\<close> is that of the same search over the scope without the absent
  packs, so no error is surfaced on their account and the remaining packs are still
  searched; when every pack of the scope is absent, and so when the search is scoped to
  one absent pack, the answer is the empty result list.
\<close>

theorem search_skips_absent:
  "(search_scope fs pack_param = Inr ps \<longrightarrow>
      search_pack fs req pack_param =
        (case scan_packs fs (lower (strip (req_q req)))
                [p \<leftarrow> ps. file_at fs (lower p @ ''.json'') \<noteq> None] [] of
           Inl e \<Rightarrow> Inl (Raised e)
         | Inr results \<Rightarrow> Inr \<lparr>resp_query = lower (strip (req_q req)), resp_results = results\<rparr>))
   \<and> (search_scope fs pack_param = Inr ps
        \<and> (\<forall>p \<in> set ps. file_at fs (lower p @ ''.json'') = None) \<longrightarrow>
        search_pack fs req pack_param
          = Inr \<lparr>resp_query = lower (strip (req_q req)), resp_results = []\<rparr>)
   \<and> (name \<noteq> [] \<and> file_at fs (lower name @ ''.json'') = None \<longrightarrow>
        search_pack fs req (Some name)
          = Inr \<lparr>resp_query = lower (strip (req_q req)), resp_results = []\<rparr>)"
proof -
  let ?q = "lower (strip (req_q req))"
  have skip: "search_pack fs req pack_param =
     (case scan_packs fs ?q [p \<leftarrow> ps. file_at fs (lower p @ ''.json'') \<noteq> None] [] of
        Inl e \<Rightarrow> Inl (Raised e)
      | Inr results \<Rightarrow> Inr \<lparr>resp_query = ?q, resp_results = results\<rparr>)"
    if "search_scope fs pack_param = Inr ps" for pack_param ps
    by (simp only: search_pack_scan [OF that] scan_packs_skip)
  have none: "search_pack fs req pack_param = Inr \<lparr>resp_query = ?q, resp_results = []\<rparr>"
    if s: "search_scope fs pack_param = Inr ps"
      and a: "\<forall>p \<in> set ps. file_at fs (lower p @ ''.json'') = None" for pack_param ps
  proof -
    from a have "[p \<leftarrow> ps. file_at fs (lower p @ ''.json'') \<noteq> None] = []"
      by (simp add: filter_empty_conv)
    with skip [OF s] show ?thesis by simp
  qed
  have one: "search_pack fs req (Some name) = Inr \<lparr>resp_query = ?q, resp_results = []\<rparr>"
    if "name \<noteq> []" "file_at fs (lower name @ ''.json'') = None"
  proof -
    from that(1) have "search_scope fs (Some name) = Inr [name]"
      by (simp add: search_scope_def)
    from none [OF this] that(2) show ?thesis by simp
  qed
  from skip none one show ?thesis by blast
qed

text \<open>
  C5, amended: a search scoped to an absent pack, and a search over a catalog with an
  absent pack and a present one.
\<close>

theorem search_skips_absent_witness:
  "search_scope demo_fs (Some ''missing'') = Inr [''missing'']
   \<and> ''missing'' \<noteq> []
   \<and> file_at demo_fs (lower ''missing'' @ ''.json'') = None
   \<and> search_pack demo_fs rapport_query (Some ''missing'')
       = Inr \<lparr>resp_query = ''rapport'', resp_results = []\<rparr>
   \<and> search_scope mixed_fs None = Inr [''Drafts'', ''sales'']
   \<and> file_at mixed_fs (lower ''Drafts'' @ ''.json'') = None
   \<and> search_pack mixed_fs rapport_query None
       = (case scan_packs mixed_fs ''rapport'' [''sales''] [] of
            Inl e \<Rightarrow> Inl (Raised e)
          | Inr results \<Rightarrow> Inr \<lparr>resp_query = ''rapport'', resp_results = results\<rparr>)
   \<and> search_pack mixed_fs rapport_query None =
       Inr \<lparr>resp_query = ''rapport'',
            resp_results = [\<lparr>res_pack = ''sales'', res_section = ''opening'',
                              res_excerpt = ''Build rapport fast.''\<rparr>]\<rparr>"
proof -
  have s: "search_scope demo_fs (Some ''missing'') = Inr [''missing'']"
    by (simp add: search_scope_def)
  have n: "''missing'' \<noteq> []"
    by simp
  from search_skips_absent [of demo_fs _ _ rapport_query "''missing''"] n demo_missing
  have r1: "search_pack demo_fs rapport_query (Some ''missing'')
       = Inr \<lparr>resp_query = ''rapport'', resp_results = []\<rparr>"
    by (simp add: lower_rapport)
  have f: "[p \<leftarrow> [''Drafts'', ''sales'']. file_at mixed_fs (lower p @ ''.json'') \<noteq> None] = [''sales'']"
    by (simp add: mixed_drafts mixed_sales)
  from search_skips_absent [of mixed_fs None "[''Drafts'', ''sales'']" rapport_query] mixed_scope
  have r2: "search_pack mixed_fs rapport_query None
       = (case scan_packs mixed_fs ''rapport'' [''sales''] [] of
            Inl e \<Rightarrow> Inl (Raised e)
          | Inr results \<Rightarrow> Inr \<lparr>resp_query = ''rapport'', resp_results = results\<rparr>)"
    by (simp only: f lower_rapport)
  from s n demo_missing r1 mixed_scope mixed_drafts r2 mixed_search
  show ?thesis by (intro conjI)
qed

text \<open>
  C10, as stated, fails when another pack of the scope cannot be loaded: with the sales
  pack and a malformed document in the data directory, the sales pack loads, yet a
  whitespace-only query gets no result for its sections: the decode error of the other
  pack leaves the endpoint.
\<close>

theorem blank_search_lost_counterexample:
  "list_all isspace (req_q blank_query)
   \<and> search_scope broken_fs None = Inr [''sales'', ''broken'']
   \<and> load_pack broken_fs ''sales'' = Inr (text_pack sales_pack)
   \<and> text_pack sales_pack = JObj [(''opening'', JStr ''Build rapport fast.''),
                                   (''Closing'', JStr ''Ask for the order.'')]
   \<and> search_pack broken_fs blank_query None = Inl (Raised JSONDecodeError)"
proof -
  have a: "list_all isspace (req_q blank_query)"
    by (simp add: blank_query_def isspace_def)
  have t: "text_pack sales_pack = JObj [(''opening'', JStr ''Build rapport fast.''),
                                   (''Closing'', JStr ''Ask for the order.'')]"
    by (simp add: text_pack_def sales_pack_def)
  from a broken_scope_all broken_load_sales t broken_search_blank show ?thesis
    by (intro conjI)
qed

text \<open>
  C10, amended. For a query made of whitespace only (the empty query included), the
  normalised query is empty and occurs in the key-and-text string of every section.
  Whenever \<open>search_pack\<close> returns a response, its results are exactly one record per
  section of every pack of the scope that loads, in scope order and section order, and
  every value of such a pack is a text. It returns a response when the scope can be listed
  and every pack of the scope is absent or a mapping of keys to texts.
\<close>

theorem blank_query_matches_all:
  assumes "\<forall>c \<in> set (req_q req). isspace c"
  shows "lower (strip (req_q req)) = []
       \<and> py_in (lower (strip (req_q req))) (lower sec @ '' '' @ lower text)
       \<and> (search_pack fs req pack_param = Inr resp \<and> search_scope fs pack_param = Inr ps \<longrightarrow>
            resp_query resp = []
            \<and> resp_results resp =
                concat (map (\<lambda>p. case load_pack fs p of
                                    Inl e \<Rightarrow> []
                                  | Inr d \<Rightarrow>
                                      (case d of
                                         JObj kvs \<Rightarrow>
                                           map (\<lambda>(k, t). \<lparr>res_pack = p, res_section = k,
                                                            res_excerpt = take 300 t\<rparr>)
                                             (section_texts kvs)
                                       | _ \<Rightarrow> [])) ps)
            \<and> (\<forall>p \<in> set ps. \<forall>d. load_pack fs p = Inr d \<longrightarrow>
                  (\<exists>kvs. d = JObj kvs \<and> kvs = map (\<lambda>(k, t). (k, JStr t)) (section_texts kvs))))
       \<and> (search_scope fs pack_param = Inr ps
            \<and> (\<forall>p \<in> set ps. file_at fs (lower p @ ''.json'') = None
                  \<or> (\<exists>sections. file_at fs (lower p @ ''.json'') = Some (Content (text_pack sections))))
            \<longrightarrow> (\<exists>resp'. search_pack fs req pack_param = Inr resp'))"
proof -
  have q: "lower (strip (req_q req)) = []"
    using strip_all_space [OF assms] by (simp add: lower_def)
  have m: "py_in (lower (strip (req_q req))) (lower sec @ '' '' @ lower text)"
    by (simp only: q py_in_Nil)
  have res: "resp_query resp = []
            \<and> resp_results resp =
                concat (map (\<lambda>p. case load_pack fs p of
                                    Inl e \<Rightarrow> []
                                  | Inr d \<Rightarrow>
                                      (case d of
                                         JObj kvs \<Rightarrow>
                                           map (\<lambda>(k, t). \<lparr>res_pack = p, res_section = k,
                                                            res_excerpt = take 300 t\<rparr>)
                                             (section_texts kvs)
                                       | _ \<Rightarrow> [])) ps)
            \<and> (\<forall>p \<in> set ps. \<forall>d. load_pack fs p = Inr d \<longrightarrow>
                  (\<exists>kvs. d = JObj kvs \<and> kvs = map (\<lambda>(k, t). (k, JStr t)) (section_texts kvs)))"
    if ret: "search_pack fs req pack_param = Inr resp" and scope: "search_scope fs pack_param = Inr ps"
  proof -
    from search_pack_Inr [OF ret] scope q
    have s: "scan_packs fs [] ps [] = Inr (resp_results resp)"
      and rq: "resp_query resp = []"
      by auto
    have r: "resp_results resp =
                concat (map (\<lambda>p. case load_pack fs p of
                                    Inl e \<Rightarrow> []
                                  | Inr d \<Rightarrow>
                                      (case d of
                                         JObj kvs \<Rightarrow>
                                           map (\<lambda>(k, t). \<lparr>res_pack = p, res_section = k,
                                                            res_excerpt = take 300 t\<rparr>)
                                             (section_texts kvs)
                                       | _ \<Rightarrow> [])) ps)"
      using scan_packs_Inr [OF s]
      by (simp add: py_in_Nil cong: sum.case_cong json.case_cong)
    have t: "\<forall>p \<in> set ps. \<forall>d. load_pack fs p = Inr d \<longrightarrow>
                  (\<exists>kvs. d = JObj kvs \<and> kvs = map (\<lambda>(k, t). (k, JStr t)) (section_texts kvs))"
      using scan_packs_texts [OF s] by blast
    from rq r t show ?thesis by (intro conjI)
  qed
  have total: "\<exists>resp'. search_pack fs req pack_param = Inr resp'"
    if scope: "search_scope fs pack_param = Inr ps"
      and ok: "\<forall>p \<in> set ps. file_at fs (lower p @ ''.json'') = None
                  \<or> (\<exists>sections. file_at fs (lower p @ ''.json'') = Some (Content (text_pack sections)))"
  proof -
    from scan_packs_total [OF ok] obtain res where
      "scan_packs fs (lower (strip (req_q req))) ps [] = Inr res"
      by blast
    then show ?thesis by (simp add: search_pack_scan [OF scope])
  qed
  from q m res total show ?thesis by blast
qed

text \<open>
  C10, amended, at the example catalog and a query of a blank, a no-break space and a tab:
  three sections, three results.
\<close>

theorem blank_query_matches_all_witness:
  "list_all isspace (req_q blank_query)
   \<and> lower (strip (req_q blank_query)) = []
   \<and> search_scope demo_fs None = Inr [''sales'', ''nlp'']
   \<and> search_pack demo_fs blank_query None =
     Inr \<lparr>resp_query = [],
          resp_results = [\<lparr>res_pack = ''sales'', res_section = ''opening'',
                            res_excerpt = ''Build rapport fast.''\<rparr>,
                          \<lparr>res_pack = ''sales'', res_section = ''Closing'',
                            res_excerpt = ''Ask for the order.''\<rparr>,
                          \<lparr>res_pack = ''nlp'', res_section = ''anchoring'',
                            res_excerpt = ''Link a state to a cue.''\<rparr>]\<rparr>
   \<and> load_pack demo_fs ''sales'' = Inr (text_pack sales_pack)
   \<and> load_pack demo_fs ''nlp'' = Inr (text_pack nlp_pack)
   \<and> length sales_pack + length nlp_pack = 3"
proof -
  have a: "\<forall>c \<in> set (req_q blank_query). isspace c"
    by (simp add: blank_query_def isspace_def)
  from a have a': "list_all isspace (req_q blank_query)"
    by (simp only: list_all_iff)
  note t = blank_query_matches_all [OF a, of "''x''" "''y''" demo_fs None _ "[''sales'', ''nlp'']"]
  from t have q: "lower (strip (req_q blank_query)) = []" by (rule conjunct1)
  have n: "length sales_pack + length nlp_pack = 3"
    by (simp add: sales_pack_def nlp_pack_def)
  from a' q demo_scope demo_search_blank demo_load_sales demo_load_nlp n
  show ?thesis by (intro conjI)
qed

end
